theory Spec2Isabelle
  imports Main "HOL-Library.List_Lexorder" "HOL-Library.Char_ord" "HOL-Library.Multiset"
begin

section \<open>Values shared by the layer stores\<close>

text \<open>
  The exceptions the bounded containers and the stores raise. A container at its fixed
  capacity raises on insertion (\<open>CapacityExceeded\<close>), an empty one on removal
  (\<open>Underflow\<close>); the bitset raises \<open>TypeError\<close> on an item that is not positive
  and \<open>KeyError\<close> on removing an absent item (the docstrings of
  \<open>SequenceLayerStore.add\<close> and \<open>SequenceLayerStore.erase\<close> name both);
  reading a list out of range raises \<open>IndexError\<close>, and reading an attribute that
  neither the object nor its class has raises \<open>AttributeError\<close>.
\<close>

datatype error = CapacityExceeded | Underflow | TypeError | KeyError | IndexError | AttributeError

type_synonym colour = "int \<times> int \<times> int"

text \<open>
  A layer of the catalogue (\<open>layer_util.Layer\<close>, not part of the sources at hand; the
  stores read \<open>layer.index\<close>, \<open>layer.name\<close> and call
  \<open>layer.apply(start, timestamp, x, y)\<close>). The transform is the field
  \<open>apply_layer\<close>.
\<close>

record Layer =
  index :: nat
  name :: string
  apply_layer :: "colour \<Rightarrow> int \<Rightarrow> int \<Rightarrow> int \<Rightarrow> colour"

section \<open>The bounded containers\<close>

subsection \<open>ArrayStack\<close>

text \<open>
  Modelled from the spec: \<open>data_structures.stack_adt.ArrayStack\<close> is missing. The spec
  has it as a fixed-capacity LIFO container with push and pop that fails on overflow and on
  underflow. The top of the stack is the head of \<open>stack_items\<close>.
\<close>

record 'a ArrayStack =
  stack_capacity :: nat
  stack_items :: "'a list"

definition ArrayStack_init :: "nat \<Rightarrow> 'a ArrayStack" where
  "ArrayStack_init max_capacity = \<lparr>stack_capacity = max_capacity, stack_items = []\<rparr>"

definition stack_len :: "'a ArrayStack \<Rightarrow> nat" where
  "stack_len s = length (stack_items s)"

definition stack_is_empty :: "'a ArrayStack \<Rightarrow> bool" where
  "stack_is_empty s = (stack_len s = 0)"

definition stack_is_full :: "'a ArrayStack \<Rightarrow> bool" where
  "stack_is_full s = (stack_capacity s \<le> stack_len s)"

definition stack_push :: "'a ArrayStack \<Rightarrow> 'a \<Rightarrow> error + 'a ArrayStack" where
  "stack_push s item =
     (if stack_is_full s then Inl CapacityExceeded
      else Inr (s\<lparr>stack_items := item # stack_items s\<rparr>))"

definition stack_pop :: "'a ArrayStack \<Rightarrow> error + ('a \<times> 'a ArrayStack)" where
  "stack_pop s =
     (case stack_items s of
        [] \<Rightarrow> Inl Underflow
      | item # rest \<Rightarrow> Inr (item, s\<lparr>stack_items := rest\<rparr>))"

definition stack_clear :: "'a ArrayStack \<Rightarrow> 'a ArrayStack" where
  "stack_clear s = s\<lparr>stack_items := []\<rparr>"

subsection \<open>CircularQueue\<close>

text \<open>
  Modelled from the spec: \<open>data_structures.queue_adt.CircularQueue\<close> is missing. The spec
  has it as a fixed-capacity FIFO container with append and serve that fails on overflow and
  on underflow. The head of the queue (the next item served) is the head of
  \<open>queue_items\<close>; append adds at the tail.
\<close>

record 'a CircularQueue =
  queue_capacity :: nat
  queue_items :: "'a list"

definition CircularQueue_init :: "nat \<Rightarrow> 'a CircularQueue" where
  "CircularQueue_init max_capacity = \<lparr>queue_capacity = max_capacity, queue_items = []\<rparr>"

definition queue_len :: "'a CircularQueue \<Rightarrow> nat" where
  "queue_len q = length (queue_items q)"

definition queue_is_empty :: "'a CircularQueue \<Rightarrow> bool" where
  "queue_is_empty q = (queue_len q = 0)"

definition queue_is_full :: "'a CircularQueue \<Rightarrow> bool" where
  "queue_is_full q = (queue_capacity q \<le> queue_len q)"

definition queue_append :: "'a CircularQueue \<Rightarrow> 'a \<Rightarrow> error + 'a CircularQueue" where
  "queue_append q item =
     (if queue_is_full q then Inl CapacityExceeded
      else Inr (q\<lparr>queue_items := queue_items q @ [item]\<rparr>))"

definition queue_serve :: "'a CircularQueue \<Rightarrow> error + ('a \<times> 'a CircularQueue)" where
  "queue_serve q =
     (case queue_items q of
        [] \<Rightarrow> Inl Underflow
      | item # rest \<Rightarrow> Inr (item, q\<lparr>queue_items := rest\<rparr>))"

subsection \<open>BSet\<close>

text \<open>
  Modelled from the spec: \<open>data_structures.bset.BSet\<close> is missing. The spec has it as a
  fixed-universe set of small positive integers with add, remove and contains, that fails on
  an item out of range and on removing an absent item. The universe is \<open>1..universe\<close>:
  an item that is not positive is a \<open>TypeError\<close>, one beyond the universe exceeds the
  capacity, and removing an item that is not in the set is a \<open>KeyError\<close>.
\<close>

record BSet =
  universe :: nat
  elems :: "nat set"

definition BSet_init :: "nat \<Rightarrow> BSet" where
  "BSet_init capacity = \<lparr>universe = capacity, elems = {}\<rparr>"

definition bset_check :: "BSet \<Rightarrow> nat \<Rightarrow> error option" where
  "bset_check s item =
     (if item = 0 then Some TypeError
      else if universe s < item then Some CapacityExceeded
      else None)"

definition bset_contains :: "BSet \<Rightarrow> nat \<Rightarrow> error + bool" where
  "bset_contains s item =
     (case bset_check s item of
        Some e \<Rightarrow> Inl e
      | None \<Rightarrow> Inr (item \<in> elems s))"

definition bset_add :: "BSet \<Rightarrow> nat \<Rightarrow> error + BSet" where
  "bset_add s item =
     (case bset_check s item of
        Some e \<Rightarrow> Inl e
      | None \<Rightarrow> Inr (s\<lparr>elems := insert item (elems s)\<rparr>))"

definition bset_remove :: "BSet \<Rightarrow> nat \<Rightarrow> error + BSet" where
  "bset_remove s item =
     (case bset_check s item of
        Some e \<Rightarrow> Inl e
      | None \<Rightarrow>
          (if item \<in> elems s then Inr (s\<lparr>elems := elems s - {item}\<rparr>)
           else Inl KeyError))"

subsection \<open>ArraySortedList\<close>

text \<open>
  Modelled from the spec: \<open>data_structures.array_sorted_list.ArraySortedList\<close> and
  \<open>data_structures.sorted_list_adt.ListItem\<close> are missing. The spec has the sorted list
  as a list that keeps its items ordered by a comparable key, with add and get-by-rank. An
  item is inserted before the first item whose key is not smaller; reading a rank that is
  not in the list is an \<open>IndexError\<close>.
\<close>

record ('a, 'k) ListItem =
  item_value :: 'a
  key :: 'k

fun sorted_list_add :: "('a, 'k::linorder) ListItem \<Rightarrow> ('a, 'k) ListItem list \<Rightarrow> ('a, 'k) ListItem list" where
  "sorted_list_add item [] = [item]"
| "sorted_list_add item (y # ys) =
     (if key item \<le> key y then item # y # ys else y # sorted_list_add item ys)"

definition sorted_list_getitem :: "('a, 'k) ListItem list \<Rightarrow> nat \<Rightarrow> error + ('a, 'k) ListItem" where
  "sorted_list_getitem xs i = (if i < length xs then Inr (xs ! i) else Inl IndexError)"

section \<open>SetLayerStore\<close>

text \<open>
  \<open>self.color\<close> starts as \<open>(None, None, None)\<close> and later holds the colour last
  computed by \<open>get_color\<close>.
\<close>

record SetLayerStore =
  color :: "int option \<times> int option \<times> int option"
  layer :: "Layer option"
  inverted :: bool

definition SetLayerStore_init :: SetLayerStore where
  "SetLayerStore_init = \<lparr>color = (None, None, None), layer = None, inverted = False\<rparr>"

definition stored_colour :: "colour \<Rightarrow> int option \<times> int option \<times> int option" where
  "stored_colour c = (case c of (r, g, b) \<Rightarrow> (Some r, Some g, Some b))"

definition SetLayerStore_add :: "SetLayerStore \<Rightarrow> Layer option \<Rightarrow> bool \<times> SetLayerStore" where
  "SetLayerStore_add st new_layer =
     (if new_layer \<noteq> layer st then (True, st\<lparr>layer := new_layer\<rparr>)
      else (False, st))"

text \<open>
  \<open>invert\<close> is the layer of that name of the module \<open>layers\<close>, a parameter here.
  The result is the colour returned and the store after the call.
\<close>

definition SetLayerStore_get_color ::
  "Layer \<Rightarrow> SetLayerStore \<Rightarrow> colour \<Rightarrow> int \<Rightarrow> int \<Rightarrow> int \<Rightarrow> colour \<times> SetLayerStore" where
  "SetLayerStore_get_color invert st start timestamp x y =
     (let c =
        (if inverted st then
           (case layer st of
              Some l \<Rightarrow> apply_layer invert (apply_layer l start timestamp x y) timestamp x y
            | None \<Rightarrow> apply_layer invert start timestamp x y)
         else
           (case layer st of
              Some l \<Rightarrow> apply_layer l start timestamp x y
            | None \<Rightarrow> start))
      in (c, st\<lparr>color := stored_colour c\<rparr>))"

text \<open>The test of \<open>erase\<close> is on the argument, not on \<open>self.layer\<close>.\<close>

definition SetLayerStore_erase :: "SetLayerStore \<Rightarrow> Layer option \<Rightarrow> bool \<times> SetLayerStore" where
  "SetLayerStore_erase st arg =
     (if arg \<noteq> None then (True, st\<lparr>layer := None\<rparr>)
      else (False, st))"

definition SetLayerStore_special :: "SetLayerStore \<Rightarrow> SetLayerStore" where
  "SetLayerStore_special st =
     (if \<not> inverted st then st\<lparr>inverted := True\<rparr>
      else st\<lparr>inverted := False\<rparr>)"

section \<open>AdditiveLayerStore\<close>

text \<open>
  \<open>get_layers()\<close> is the catalogue of the module \<open>layer_util\<close>, a parameter here: a
  list of slots, each a layer or \<open>None\<close>. Both containers get the capacity
  \<open>len(get_layers()) * 100\<close>.
\<close>

record AdditiveLayerStore =
  layer_queue :: "Layer CircularQueue"
  layer_stack :: "Layer ArrayStack"

definition AdditiveLayerStore_init :: "Layer option list \<Rightarrow> AdditiveLayerStore" where
  "AdditiveLayerStore_init get_layers =
     \<lparr>layer_queue = CircularQueue_init (length get_layers * 100),
      layer_stack = ArrayStack_init (length get_layers * 100)\<rparr>"

definition AdditiveLayerStore_add :: "AdditiveLayerStore \<Rightarrow> Layer \<Rightarrow> error + (bool \<times> AdditiveLayerStore)" where
  "AdditiveLayerStore_add st new_layer =
     (let added_queue_length = queue_len (layer_queue st) + 1 in
      case queue_append (layer_queue st) new_layer of
        Inl e \<Rightarrow> Inl e
      | Inr q \<Rightarrow> Inr (queue_len q = added_queue_length, st\<lparr>layer_queue := q\<rparr>))"

text \<open>
  The loop of \<open>get_color\<close> runs \<open>len(self.layer_queue)\<close> times, the length read
  once before the first round: serve the head, apply it, append it again.
\<close>

fun additive_get_color_loop ::
  "nat \<Rightarrow> Layer CircularQueue \<Rightarrow> colour \<Rightarrow> int \<Rightarrow> int \<Rightarrow> int \<Rightarrow> error + (colour \<times> Layer CircularQueue)" where
  "additive_get_color_loop 0 q c timestamp x y = Inr (c, q)"
| "additive_get_color_loop (Suc n) q c timestamp x y =
     (case queue_serve q of
        Inl e \<Rightarrow> Inl e
      | Inr (current_layer, q1) \<Rightarrow>
          (case queue_append q1 current_layer of
             Inl e \<Rightarrow> Inl e
           | Inr q2 \<Rightarrow>
               additive_get_color_loop n q2 (apply_layer current_layer c timestamp x y) timestamp x y))"

definition AdditiveLayerStore_get_color ::
  "AdditiveLayerStore \<Rightarrow> colour \<Rightarrow> int \<Rightarrow> int \<Rightarrow> int \<Rightarrow> error + (colour \<times> AdditiveLayerStore)" where
  "AdditiveLayerStore_get_color st start timestamp x y =
     (if queue_is_empty (layer_queue st) then Inr (start, st)
      else
        (case additive_get_color_loop (queue_len (layer_queue st)) (layer_queue st) start timestamp x y of
           Inl e \<Rightarrow> Inl e
         | Inr (c, q) \<Rightarrow> Inr (c, st\<lparr>layer_queue := q\<rparr>)))"

text \<open>\<open>len(self.layer_queue) - 1\<close> is \<open>-1\<close> on an empty queue, so it is an \<open>int\<close>.\<close>

definition AdditiveLayerStore_erase :: "AdditiveLayerStore \<Rightarrow> Layer \<Rightarrow> error + (bool \<times> AdditiveLayerStore)" where
  "AdditiveLayerStore_erase st arg =
     (let erased_queue_length = int (queue_len (layer_queue st)) - 1 in
      case queue_serve (layer_queue st) of
        Inl e \<Rightarrow> Inl e
      | Inr (served, q) \<Rightarrow> Inr (int (queue_len q) = erased_queue_length, st\<lparr>layer_queue := q\<rparr>))"

text \<open>The two loops of \<open>special\<close>: queue to stack, then stack to queue.\<close>

fun additive_special_drain ::
  "nat \<Rightarrow> Layer CircularQueue \<Rightarrow> Layer ArrayStack \<Rightarrow> error + (Layer CircularQueue \<times> Layer ArrayStack)" where
  "additive_special_drain 0 q s = Inr (q, s)"
| "additive_special_drain (Suc n) q s =
     (case queue_serve q of
        Inl e \<Rightarrow> Inl e
      | Inr (current_element, q1) \<Rightarrow>
          (case stack_push s current_element of
             Inl e \<Rightarrow> Inl e
           | Inr s1 \<Rightarrow> additive_special_drain n q1 s1))"

fun additive_special_refill ::
  "nat \<Rightarrow> Layer CircularQueue \<Rightarrow> Layer ArrayStack \<Rightarrow> error + (Layer CircularQueue \<times> Layer ArrayStack)" where
  "additive_special_refill 0 q s = Inr (q, s)"
| "additive_special_refill (Suc n) q s =
     (case stack_pop s of
        Inl e \<Rightarrow> Inl e
      | Inr (reversed_element, s1) \<Rightarrow>
          (case queue_append q reversed_element of
             Inl e \<Rightarrow> Inl e
           | Inr q1 \<Rightarrow> additive_special_refill n q1 s1))"

definition AdditiveLayerStore_special :: "AdditiveLayerStore \<Rightarrow> error + AdditiveLayerStore" where
  "AdditiveLayerStore_special st =
     (case additive_special_drain (queue_len (layer_queue st)) (layer_queue st) (layer_stack st) of
        Inl e \<Rightarrow> Inl e
      | Inr (q1, s1) \<Rightarrow>
          (case additive_special_refill (stack_len s1) q1 s1 of
             Inl e \<Rightarrow> Inl e
           | Inr (q2, s2) \<Rightarrow> Inr (st\<lparr>layer_queue := q2, layer_stack := s2\<rparr>)))"

text \<open>
  A sequence of calls on one store, run in order; the first exception ends the run. The
  results of the calls are dropped, the store is kept.
\<close>

datatype store_call = Add Layer | Erase Layer | Special | GetColor colour int int int

fun AdditiveLayerStore_call :: "AdditiveLayerStore \<Rightarrow> store_call \<Rightarrow> error + AdditiveLayerStore" where
  "AdditiveLayerStore_call st (Add l) = map_sum id snd (AdditiveLayerStore_add st l)"
| "AdditiveLayerStore_call st (Erase l) = map_sum id snd (AdditiveLayerStore_erase st l)"
| "AdditiveLayerStore_call st Special = AdditiveLayerStore_special st"
| "AdditiveLayerStore_call st (GetColor start timestamp x y) =
     map_sum id snd (AdditiveLayerStore_get_color st start timestamp x y)"

fun AdditiveLayerStore_run :: "AdditiveLayerStore \<Rightarrow> store_call list \<Rightarrow> error + AdditiveLayerStore" where
  "AdditiveLayerStore_run st [] = Inr st"
| "AdditiveLayerStore_run st (c # cs) =
     (case AdditiveLayerStore_call st c of
        Inl e \<Rightarrow> Inl e
      | Inr st1 \<Rightarrow> AdditiveLayerStore_run st1 cs)"

section \<open>SequenceLayerStore\<close>

record SequenceLayerStore =
  layer_set :: BSet
  is_specialized :: bool
  layer_list :: "Layer option list"

definition SequenceLayerStore_init :: "Layer option list \<Rightarrow> SequenceLayerStore" where
  "SequenceLayerStore_init get_layers =
     \<lparr>layer_set = BSet_init 9, is_specialized = False, layer_list = get_layers\<rparr>"

definition SequenceLayerStore_add :: "SequenceLayerStore \<Rightarrow> Layer \<Rightarrow> error + (bool \<times> SequenceLayerStore)" where
  "SequenceLayerStore_add st new_layer =
     (let layer_index = index new_layer + 1 in
      case bset_contains (layer_set st) layer_index of
        Inl e \<Rightarrow> Inl e
      | Inr present \<Rightarrow>
          (if present then Inr (False, st)
           else
             (case bset_add (layer_set st) layer_index of
                Inl e \<Rightarrow> Inl e
              | Inr s \<Rightarrow> Inr (True, st\<lparr>layer_set := s\<rparr>))))"

text \<open>The loop of \<open>get_color\<close> over \<open>self.layer_list\<close>, slot by slot.\<close>

fun sequence_get_color_loop ::
  "Layer option list \<Rightarrow> BSet \<Rightarrow> colour \<Rightarrow> int \<Rightarrow> int \<Rightarrow> int \<Rightarrow> error + colour" where
  "sequence_get_color_loop [] s c timestamp x y = Inr c"
| "sequence_get_color_loop (None # rest) s c timestamp x y =
     sequence_get_color_loop rest s c timestamp x y"
| "sequence_get_color_loop (Some each_layer # rest) s c timestamp x y =
     (case bset_contains s (index each_layer + 1) of
        Inl e \<Rightarrow> Inl e
      | Inr present \<Rightarrow>
          sequence_get_color_loop rest s
            (if present then apply_layer each_layer c timestamp x y else c) timestamp x y)"

definition SequenceLayerStore_get_color ::
  "SequenceLayerStore \<Rightarrow> colour \<Rightarrow> int \<Rightarrow> int \<Rightarrow> int \<Rightarrow> error + colour" where
  "SequenceLayerStore_get_color st start timestamp x y =
     sequence_get_color_loop (layer_list st) (layer_set st) start timestamp x y"

definition SequenceLayerStore_erase :: "SequenceLayerStore \<Rightarrow> Layer \<Rightarrow> error + (bool \<times> SequenceLayerStore)" where
  "SequenceLayerStore_erase st arg =
     (let layer_index = index arg + 1 in
      case bset_contains (layer_set st) layer_index of
        Inl e \<Rightarrow> Inl e
      | Inr present \<Rightarrow>
          (if \<not> present then Inr (False, st)
           else
             (case bset_remove (layer_set st) layer_index of
                Inl e \<Rightarrow> Inl e
              | Inr s \<Rightarrow> Inr (True, st\<lparr>layer_set := s\<rparr>))))"

text \<open>
  The first loop of \<open>special\<close>: every member layer of the catalogue goes into the sorted
  list as \<open>ListItem(each_layer, each_layer.name)\<close>.
\<close>

fun sequence_special_loop ::
  "Layer option list \<Rightarrow> BSet \<Rightarrow> (Layer, string) ListItem list \<Rightarrow> error + (Layer, string) ListItem list" where
  "sequence_special_loop [] s layer_sortedList = Inr layer_sortedList"
| "sequence_special_loop (None # rest) s layer_sortedList =
     sequence_special_loop rest s layer_sortedList"
| "sequence_special_loop (Some each_layer # rest) s layer_sortedList =
     (case bset_contains s (index each_layer + 1) of
        Inl e \<Rightarrow> Inl e
      | Inr present \<Rightarrow>
          sequence_special_loop rest s
            (if present
             then sorted_list_add \<lparr>item_value = each_layer, key = name each_layer\<rparr> layer_sortedList
             else layer_sortedList))"

text \<open>
  \<open>chosen_index\<close> is computed on a list that is not empty, so for an even length the
  subtraction does not go below zero.
\<close>

definition chosen_index :: "nat \<Rightarrow> nat" where
  "chosen_index n = (if n mod 2 = 0 then n div 2 - 1 else n div 2)"

definition SequenceLayerStore_special :: "SequenceLayerStore \<Rightarrow> error + SequenceLayerStore" where
  "SequenceLayerStore_special st =
     (case sequence_special_loop (layer_list st) (layer_set st) [] of
        Inl e \<Rightarrow> Inl e
      | Inr layer_sortedList \<Rightarrow>
          (if layer_sortedList \<noteq> [] then
             (case sorted_list_getitem layer_sortedList (chosen_index (length layer_sortedList)) of
                Inl e \<Rightarrow> Inl e
              | Inr item \<Rightarrow>
                  (let removed_item_index = index (item_value item) in
                   case bset_remove (layer_set st) (removed_item_index + 1) of
                     Inl e \<Rightarrow> Inl e
                   | Inr s \<Rightarrow> Inr (st\<lparr>layer_set := s\<rparr>)))
           else Inr st))"

fun SequenceLayerStore_call :: "SequenceLayerStore \<Rightarrow> store_call \<Rightarrow> error + SequenceLayerStore" where
  "SequenceLayerStore_call st (Add l) = map_sum id snd (SequenceLayerStore_add st l)"
| "SequenceLayerStore_call st (Erase l) = map_sum id snd (SequenceLayerStore_erase st l)"
| "SequenceLayerStore_call st Special = SequenceLayerStore_special st"
| "SequenceLayerStore_call st (GetColor start timestamp x y) =
     map_sum id (\<lambda>c. st) (SequenceLayerStore_get_color st start timestamp x y)"

fun SequenceLayerStore_run :: "SequenceLayerStore \<Rightarrow> store_call list \<Rightarrow> error + SequenceLayerStore" where
  "SequenceLayerStore_run st [] = Inr st"
| "SequenceLayerStore_run st (c # cs) =
     (case SequenceLayerStore_call st c of
        Inl e \<Rightarrow> Inl e
      | Inr st1 \<Rightarrow> SequenceLayerStore_run st1 cs)"

section \<open>UndoTracker\<close>

text \<open>
  \<open>history_stack\<close> and \<open>undo_stack\<close> are assigned in the body of the class, so they
  are attributes of the class object: two stack objects made once, when the class is made.
  An instance has an attribute dictionary of its own, empty when the instance is made (the
  class has no \<open>__init__\<close>). The objects live in a store, by address; reading
  \<open>self.history_stack\<close> looks the name up in the dictionary of the instance first and in
  that of the class next, and yields an address. The methods change the stack object at
  that address; none of them assigns an attribute.
\<close>

type_synonym address = nat

record 'a py_store =
  objects :: "address \<rightharpoonup> 'a ArrayStack"
  class_dict :: "string \<rightharpoonup> address"
  instance_dicts :: "nat \<rightharpoonup> (string \<rightharpoonup> address)"
  next_instance :: nat

definition UndoTracker_class_body :: "'a py_store" where
  "UndoTracker_class_body =
     \<lparr>objects = [0 \<mapsto> ArrayStack_init 10000, 1 \<mapsto> ArrayStack_init 10000],
      class_dict = [''history_stack'' \<mapsto> 0, ''undo_stack'' \<mapsto> 1],
      instance_dicts = Map.empty,
      next_instance = 0\<rparr>"

text \<open>\<open>UndoTracker()\<close>: a new instance, with an empty dictionary.\<close>

definition UndoTracker_new :: "'a py_store \<Rightarrow> nat \<times> 'a py_store" where
  "UndoTracker_new st =
     (next_instance st,
      st\<lparr>instance_dicts := (instance_dicts st)(next_instance st \<mapsto> Map.empty),
         next_instance := Suc (next_instance st)\<rparr>)"

definition bind_err :: "error + 'a \<Rightarrow> ('a \<Rightarrow> error + 'b) \<Rightarrow> error + 'b" where
  "bind_err m f = (case m of Inl e \<Rightarrow> Inl e | Inr v \<Rightarrow> f v)"

definition getattr :: "'a py_store \<Rightarrow> nat \<Rightarrow> string \<Rightarrow> error + address" where
  "getattr st self attr =
     (case instance_dicts st self of
        None \<Rightarrow> Inl AttributeError
      | Some d \<Rightarrow>
          (case d attr of
             Some a \<Rightarrow> Inr a
           | None \<Rightarrow>
               (case class_dict st attr of
                  Some a \<Rightarrow> Inr a
                | None \<Rightarrow> Inl AttributeError)))"

text \<open>The stack methods, on the stack object at an address of the store.\<close>

definition store_stack :: "'a py_store \<Rightarrow> address \<Rightarrow> error + 'a ArrayStack" where
  "store_stack st a = (case objects st a of None \<Rightarrow> Inl AttributeError | Some s \<Rightarrow> Inr s)"

definition store_push :: "'a py_store \<Rightarrow> address \<Rightarrow> 'a \<Rightarrow> error + 'a py_store" where
  "store_push st a item =
     bind_err (store_stack st a) (\<lambda>s.
     bind_err (stack_push s item) (\<lambda>s1.
     Inr (st\<lparr>objects := (objects st)(a \<mapsto> s1)\<rparr>)))"

definition store_pop :: "'a py_store \<Rightarrow> address \<Rightarrow> error + ('a \<times> 'a py_store)" where
  "store_pop st a =
     bind_err (store_stack st a) (\<lambda>s.
     bind_err (stack_pop s) (\<lambda>(item, s1).
     Inr (item, st\<lparr>objects := (objects st)(a \<mapsto> s1)\<rparr>)))"

definition store_clear :: "'a py_store \<Rightarrow> address \<Rightarrow> error + 'a py_store" where
  "store_clear st a =
     bind_err (store_stack st a) (\<lambda>s.
     Inr (st\<lparr>objects := (objects st)(a \<mapsto> stack_clear s)\<rparr>))"

text \<open>
  The loop of \<open>add_action\<close> pops the history \<open>len(self.undo_stack)\<close> times, the
  length read after the undo stack was cleared.
\<close>

fun add_action_loop :: "nat \<Rightarrow> 'a py_store \<Rightarrow> address \<Rightarrow> error + 'a py_store" where
  "add_action_loop 0 st h = Inr st"
| "add_action_loop (Suc n) st h =
     bind_err (store_pop st h) (\<lambda>(popped, st1). add_action_loop n st1 h)"

definition UndoTracker_add_action :: "'a py_store \<Rightarrow> nat \<Rightarrow> 'a \<Rightarrow> error + 'a py_store" where
  "UndoTracker_add_action st self action =
     bind_err (getattr st self ''history_stack'') (\<lambda>h.
     bind_err (store_stack st h) (\<lambda>hs.
     bind_err (getattr st self ''undo_stack'') (\<lambda>u.
     bind_err (store_stack st u) (\<lambda>us.
       (if \<not> stack_is_empty us then
          bind_err (store_clear st u) (\<lambda>st1.
          bind_err (store_stack st1 u) (\<lambda>us1.
          bind_err (add_action_loop (stack_len us1) st1 h) (\<lambda>st2.
          store_push st2 h action)))
        else store_push st h action)))))"

text \<open>
  \<open>undo_apply\<close> and \<open>redo_apply\<close> are the methods of \<open>action.PaintAction\<close>,
  parameters here; they change the grid. The result is the action returned, the grid and
  the store after the call.
\<close>

definition UndoTracker_undo ::
  "('a \<Rightarrow> 'g \<Rightarrow> 'g) \<Rightarrow> 'a py_store \<Rightarrow> nat \<Rightarrow> 'g \<Rightarrow> error + ('a option \<times> 'g \<times> 'a py_store)" where
  "UndoTracker_undo undo_apply st self grid =
     bind_err (getattr st self ''history_stack'') (\<lambda>h.
     bind_err (store_stack st h) (\<lambda>hs.
       (if stack_is_empty hs then Inr (None, grid, st)
        else
          bind_err (store_pop st h) (\<lambda>(undid_action, st1).
          bind_err (getattr st1 self ''undo_stack'') (\<lambda>u.
          bind_err (store_push st1 u undid_action) (\<lambda>st2.
          Inr (Some undid_action, undo_apply undid_action grid, st2)))))))"

definition UndoTracker_redo ::
  "('a \<Rightarrow> 'g \<Rightarrow> 'g) \<Rightarrow> 'a py_store \<Rightarrow> nat \<Rightarrow> 'g \<Rightarrow> error + ('a option \<times> 'g \<times> 'a py_store)" where
  "UndoTracker_redo redo_apply st self grid =
     bind_err (getattr st self ''undo_stack'') (\<lambda>u.
     bind_err (store_stack st u) (\<lambda>us.
       (if stack_is_empty us then Inr (None, grid, st)
        else
          bind_err (store_pop st u) (\<lambda>(redid_action, st1).
          bind_err (getattr st1 self ''history_stack'') (\<lambda>h.
          bind_err (store_push st1 h redid_action) (\<lambda>st2.
          Inr (Some redid_action, redo_apply redid_action grid, st2)))))))"

text \<open>
  An instance as the class makes it: it is in the store and its own dictionary has neither
  of the two names. The class as its body leaves it: both names are in its dictionary, at
  two stack objects of the store, each of capacity 10000.
\<close>

definition plain_instance :: "'a py_store \<Rightarrow> nat \<Rightarrow> bool" where
  "plain_instance st t =
     (case instance_dicts st t of
        None \<Rightarrow> False
      | Some d \<Rightarrow> d ''history_stack'' = None \<and> d ''undo_stack'' = None)"

definition class_attributes :: "'a py_store \<Rightarrow> bool" where
  "class_attributes st =
     (case class_dict st ''history_stack'' of
        None \<Rightarrow> False
      | Some h \<Rightarrow>
          (case class_dict st ''undo_stack'' of
             None \<Rightarrow> False
           | Some u \<Rightarrow>
               h \<noteq> u \<and>
               (case objects st h of
                  None \<Rightarrow> False
                | Some hs \<Rightarrow>
                    (case objects st u of
                       None \<Rightarrow> False
                     | Some us \<Rightarrow> stack_capacity hs = 10000 \<and> stack_capacity us = 10000))))"

section \<open>Layers to run the model on\<close>

text \<open>
  The module \<open>layers\<close> is not part of the sources at hand. These layers stand in for its
  entries where a statement is evaluated on a concrete store: \<open>example_layer i n k\<close> is
  the catalogue entry of index \<open>i\<close> and name \<open>n\<close>; its transform doubles the red
  component and adds \<open>k\<close>, so that the order of two layers shows in the result.
\<close>

definition example_layer :: "nat \<Rightarrow> string \<Rightarrow> int \<Rightarrow> Layer" where
  "example_layer i n k =
     \<lparr>index = i, name = n,
      apply_layer = (\<lambda>c timestamp x y. (2 * fst c + k, fst (snd c) + timestamp, snd (snd c) + x + y))\<rparr>"

definition example_invert :: Layer where
  "example_invert =
     \<lparr>index = 3, name = ''invert'',
      apply_layer = (\<lambda>c timestamp x y. (255 - fst c, 255 - fst (snd c), 255 - snd (snd c)))\<rparr>"

definition fruit_catalogue :: "Layer option list" where
  "fruit_catalogue =
     [Some (example_layer 0 ''apple'' 1), Some (example_layer 1 ''banana'' 2),
      Some (example_layer 2 ''cherry'' 3), Some (example_layer 3 ''date'' 4),
      Some (example_layer 4 ''egg'' 5), None]"

section \<open>Notions the statements use\<close>

text \<open>The left fold of a list of layers over a start colour, head first.\<close>

abbreviation compose_layers :: "Layer list \<Rightarrow> colour \<Rightarrow> int \<Rightarrow> int \<Rightarrow> int \<Rightarrow> colour" where
  "compose_layers ls start timestamp x y \<equiv> foldl (\<lambda>c l. apply_layer l c timestamp x y) start ls"

text \<open>
  What holds of an additive store between two calls: the queue is within its capacity, the
  scratch stack is empty and has the queue's capacity.
\<close>

definition AdditiveLayerStore_inv :: "AdditiveLayerStore \<Rightarrow> bool" where
  "AdditiveLayerStore_inv st =
     (queue_len (layer_queue st) \<le> queue_capacity (layer_queue st) \<and>
      stack_items (layer_stack st) = [] \<and>
      stack_capacity (layer_stack st) = queue_capacity (layer_queue st))"

text \<open>
  The layers of the catalogue whose item \<open>index + 1\<close> is in a set of items, in the order
  of the catalogue; the member layers of a sequence store.
\<close>

fun catalogue_members :: "Layer option list \<Rightarrow> nat set \<Rightarrow> Layer list" where
  "catalogue_members [] items = []"
| "catalogue_members (None # rest) items = catalogue_members rest items"
| "catalogue_members (Some l # rest) items =
     (if index l + 1 \<in> items then l # catalogue_members rest items
      else catalogue_members rest items)"

definition member_layers :: "SequenceLayerStore \<Rightarrow> Layer list" where
  "member_layers st = catalogue_members (layer_list st) (elems (layer_set st))"

text \<open>
  A catalogue fits a bitset of universe \<open>u\<close> when the item \<open>index + 1\<close> of each of its
  layers is within \<open>1..u\<close>. It is indexed from \<open>k\<close> when the layer in its slot
  \<open>i\<close> has the index \<open>k + i\<close>; the catalogue of \<open>layer_util\<close> is indexed from 0.
\<close>

fun catalogue_fits :: "Layer option list \<Rightarrow> nat \<Rightarrow> bool" where
  "catalogue_fits [] u = True"
| "catalogue_fits (None # rest) u = catalogue_fits rest u"
| "catalogue_fits (Some l # rest) u = (index l < u \<and> catalogue_fits rest u)"

fun catalogue_indexed :: "nat \<Rightarrow> Layer option list \<Rightarrow> bool" where
  "catalogue_indexed k [] = True"
| "catalogue_indexed k (None # rest) = catalogue_indexed (Suc k) rest"
| "catalogue_indexed k (Some l # rest) = (index l = k \<and> catalogue_indexed (Suc k) rest)"

section \<open>SetLayerStore: erase, get_color, special\<close>

lemma example_layer_fields:
  "index (example_layer i n k) = i" "name (example_layer i n k) = n"
  by (simp_all add: example_layer_def)

lemma SetLayerStore_erase_tests_argument:
  "SetLayerStore_erase st arg = (arg \<noteq> None, if arg \<noteq> None then st\<lparr>layer := None\<rparr> else st)"
  by (simp add: SetLayerStore_erase_def)

text \<open>
  C1. The claim: \<open>erase\<close> returns true if and only if a layer was held before the call,
  and on a store that holds no layer it returns false for every argument. The code tests
  its argument instead of the held layer: on the store as \<open>__init__\<close> leaves it, which
  holds no layer, \<open>erase\<close> of a layer returns \<open>True\<close> and leaves the store as it
  was.
\<close>

theorem SetLayerStore_erase_empty_returns_true:
  "layer SetLayerStore_init = None \<and>
   SetLayerStore_erase SetLayerStore_init (Some (example_layer 0 ''apple'' 1)) =
     (True, SetLayerStore_init)"
  by (simp add: SetLayerStore_erase_def SetLayerStore_init_def)

text \<open>
  C2, as claimed: \<open>get_color\<close> leaves every field of the store unchanged. It does not:
  it assigns \<open>self.color\<close>. On the store as \<open>__init__\<close> leaves it, whose
  \<open>color\<close> is \<open>(None, None, None)\<close>, the store after the call differs.
\<close>

theorem SetLayerStore_get_color_assigns_color:
  "snd (SetLayerStore_get_color example_invert SetLayerStore_init (1, 2, 3) 0 0 0) \<noteq>
     SetLayerStore_init"
  by (simp add: SetLayerStore_get_color_def SetLayerStore_init_def stored_colour_def)

text \<open>
  C2, amended: \<open>get_color\<close> leaves the held layer and the inverted flag unchanged and
  sets the field \<open>color\<close> to the colour it returns; a second call with the same
  arguments returns the same colour and leaves the store as the first call left it.
\<close>

theorem SetLayerStore_get_color_effect:
  "layer (snd (SetLayerStore_get_color invert st start timestamp x y)) = layer st \<and>
   inverted (snd (SetLayerStore_get_color invert st start timestamp x y)) = inverted st \<and>
   color (snd (SetLayerStore_get_color invert st start timestamp x y)) =
     stored_colour (fst (SetLayerStore_get_color invert st start timestamp x y)) \<and>
   SetLayerStore_get_color invert (snd (SetLayerStore_get_color invert st start timestamp x y))
       start timestamp x y =
     SetLayerStore_get_color invert st start timestamp x y"
  by (simp add: SetLayerStore_get_color_def Let_def)

text \<open>
  C9. \<open>special\<close> of the set store toggles the inverted flag, and two calls give back the
  store itself, so \<open>get_color\<close> returns after them what it returned before, for every
  store, start colour, timestamp and coordinates.
\<close>

theorem SetLayerStore_special_period_two:
  "inverted (SetLayerStore_special st) = (\<not> inverted st) \<and>
   SetLayerStore_special (SetLayerStore_special st) = st \<and>
   fst (SetLayerStore_get_color invert (SetLayerStore_special (SetLayerStore_special st))
          start timestamp x y) =
   fst (SetLayerStore_get_color invert st start timestamp x y)"
proof -
  have twice: "SetLayerStore_special (SetLayerStore_special st) = st"
    by (simp add: SetLayerStore_special_def)
  have toggled: "inverted (SetLayerStore_special st) = (\<not> inverted st)"
    by (simp add: SetLayerStore_special_def)
  show ?thesis
    by (simp only: twice toggled)
qed

section \<open>AdditiveLayerStore: the loops\<close>

lemma additive_get_color_loop_rotates:
  "n \<le> length (queue_items q) \<Longrightarrow> length (queue_items q) \<le> queue_capacity q \<Longrightarrow>
   additive_get_color_loop n q c timestamp x y =
     Inr (compose_layers (take n (queue_items q)) c timestamp x y,
          q\<lparr>queue_items := drop n (queue_items q) @ take n (queue_items q)\<rparr>)"
proof (induction n arbitrary: q c)
  case 0
  then show ?case by simp
next
  case (Suc n)
  then obtain l rest where items: "queue_items q = l # rest"
    by (cases "queue_items q") auto
  let ?q1 = "q\<lparr>queue_items := rest\<rparr>"
  let ?q2 = "q\<lparr>queue_items := rest @ [l]\<rparr>"
  have serve: "queue_serve q = Inr (l, ?q1)"
    by (simp add: queue_serve_def items)
  have app: "queue_append ?q1 l = Inr ?q2"
    using Suc.prems items by (simp add: queue_append_def queue_is_full_def queue_len_def)
  have n: "n \<le> length rest"
    using Suc.prems items by simp
  have ih: "additive_get_color_loop n ?q2 (apply_layer l c timestamp x y) timestamp x y =
     Inr (compose_layers (take n (queue_items ?q2)) (apply_layer l c timestamp x y) timestamp x y,
          ?q2\<lparr>queue_items := drop n (queue_items ?q2) @ take n (queue_items ?q2)\<rparr>)"
    using Suc.prems items by (intro Suc.IH) simp_all
  show ?case
    using n by (simp add: serve app ih items)
qed

lemma additive_get_color_under_inv:
  assumes "AdditiveLayerStore_inv st"
  shows "AdditiveLayerStore_get_color st start timestamp x y =
     Inr (compose_layers (queue_items (layer_queue st)) start timestamp x y, st)"
proof (cases "queue_items (layer_queue st) = []")
  case True
  then show ?thesis
    by (simp add: AdditiveLayerStore_get_color_def queue_is_empty_def queue_len_def)
next
  case False
  have "additive_get_color_loop (queue_len (layer_queue st)) (layer_queue st) start timestamp x y =
     Inr (compose_layers (queue_items (layer_queue st)) start timestamp x y, layer_queue st)"
    using assms
    by (simp add: additive_get_color_loop_rotates queue_len_def AdditiveLayerStore_inv_def)
  then show ?thesis
    using False by (simp add: AdditiveLayerStore_get_color_def queue_is_empty_def queue_len_def)
qed

lemma additive_special_drain_result:
  "n \<le> length (queue_items q) \<Longrightarrow> length (stack_items s) + n \<le> stack_capacity s \<Longrightarrow>
   additive_special_drain n q s =
     Inr (q\<lparr>queue_items := drop n (queue_items q)\<rparr>,
          s\<lparr>stack_items := rev (take n (queue_items q)) @ stack_items s\<rparr>)"
proof (induction n arbitrary: q s)
  case 0
  then show ?case by simp
next
  case (Suc n)
  then obtain l rest where items: "queue_items q = l # rest"
    by (cases "queue_items q") auto
  have serve: "queue_serve q = Inr (l, q\<lparr>queue_items := rest\<rparr>)"
    by (simp add: queue_serve_def items)
  have push: "stack_push s l = Inr (s\<lparr>stack_items := l # stack_items s\<rparr>)"
    using Suc.prems by (simp add: stack_push_def stack_is_full_def stack_len_def)
  have ih: "additive_special_drain n (q\<lparr>queue_items := rest\<rparr>) (s\<lparr>stack_items := l # stack_items s\<rparr>) =
     Inr (q\<lparr>queue_items := drop n rest\<rparr>,
          s\<lparr>stack_items := rev (take n rest) @ l # stack_items s\<rparr>)"
    using Suc.prems items Suc.IH [of "q\<lparr>queue_items := rest\<rparr>" "s\<lparr>stack_items := l # stack_items s\<rparr>"]
    by simp
  show ?case
    by (simp add: serve push ih items)
qed

lemma additive_special_refill_result:
  "n \<le> length (stack_items s) \<Longrightarrow> length (queue_items q) + n \<le> queue_capacity q \<Longrightarrow>
   additive_special_refill n q s =
     Inr (q\<lparr>queue_items := queue_items q @ take n (stack_items s)\<rparr>,
          s\<lparr>stack_items := drop n (stack_items s)\<rparr>)"
proof (induction n arbitrary: q s)
  case 0
  then show ?case by simp
next
  case (Suc n)
  then obtain l rest where items: "stack_items s = l # rest"
    by (cases "stack_items s") auto
  have pop: "stack_pop s = Inr (l, s\<lparr>stack_items := rest\<rparr>)"
    by (simp add: stack_pop_def items)
  have app: "queue_append q l = Inr (q\<lparr>queue_items := queue_items q @ [l]\<rparr>)"
    using Suc.prems by (simp add: queue_append_def queue_is_full_def queue_len_def)
  have ih: "additive_special_refill n (q\<lparr>queue_items := queue_items q @ [l]\<rparr>) (s\<lparr>stack_items := rest\<rparr>) =
     Inr (q\<lparr>queue_items := (queue_items q @ [l]) @ take n rest\<rparr>,
          s\<lparr>stack_items := drop n rest\<rparr>)"
    using Suc.prems items Suc.IH [of "s\<lparr>stack_items := rest\<rparr>" "q\<lparr>queue_items := queue_items q @ [l]\<rparr>"]
    by simp
  show ?case
    by (simp add: pop app ih items)
qed

lemma additive_special_under_inv:
  assumes "AdditiveLayerStore_inv st"
  shows "AdditiveLayerStore_special st =
     Inr (st\<lparr>layer_queue := (layer_queue st)\<lparr>queue_items := rev (queue_items (layer_queue st))\<rparr>\<rparr>)"
proof -
  let ?q = "layer_queue st" and ?s = "layer_stack st"
  have empty: "stack_items ?s = []" and cap: "stack_capacity ?s = queue_capacity ?q"
    and len: "length (queue_items ?q) \<le> queue_capacity ?q"
    using assms by (simp_all add: AdditiveLayerStore_inv_def queue_len_def)
  have drain: "additive_special_drain (queue_len ?q) ?q ?s =
      Inr (?q\<lparr>queue_items := []\<rparr>, ?s\<lparr>stack_items := rev (queue_items ?q)\<rparr>)"
    using empty cap len by (simp add: additive_special_drain_result queue_len_def)
  have refill: "additive_special_refill (stack_len (?s\<lparr>stack_items := rev (queue_items ?q)\<rparr>))
        (?q\<lparr>queue_items := []\<rparr>) (?s\<lparr>stack_items := rev (queue_items ?q)\<rparr>) =
      Inr (?q\<lparr>queue_items := rev (queue_items ?q)\<rparr>, ?s)"
    using empty len by (simp add: additive_special_refill_result stack_len_def)
  show ?thesis
    by (simp add: AdditiveLayerStore_special_def drain refill)
qed

lemma additive_inv_init: "AdditiveLayerStore_inv (AdditiveLayerStore_init get_layers)"
  by (simp add: AdditiveLayerStore_inv_def AdditiveLayerStore_init_def CircularQueue_init_def
      ArrayStack_init_def queue_len_def)

lemma additive_add_result:
  "AdditiveLayerStore_add st l =
     (if queue_capacity (layer_queue st) \<le> length (queue_items (layer_queue st)) then Inl CapacityExceeded
      else Inr (True, st\<lparr>layer_queue := (layer_queue st)\<lparr>queue_items := queue_items (layer_queue st) @ [l]\<rparr>\<rparr>))"
  by (simp add: AdditiveLayerStore_add_def queue_append_def queue_is_full_def queue_len_def)

lemma additive_erase_result:
  "AdditiveLayerStore_erase st arg =
     (case queue_items (layer_queue st) of
        [] \<Rightarrow> Inl Underflow
      | l # rest \<Rightarrow> Inr (True, st\<lparr>layer_queue := (layer_queue st)\<lparr>queue_items := rest\<rparr>\<rparr>))"
  by (simp add: AdditiveLayerStore_erase_def queue_serve_def queue_len_def split: list.splits)

lemma additive_inv_call:
  "AdditiveLayerStore_inv st \<Longrightarrow> AdditiveLayerStore_call st c = Inr st1 \<Longrightarrow> AdditiveLayerStore_inv st1"
proof (cases c)
  case (Add l)
  assume "AdditiveLayerStore_inv st" "AdditiveLayerStore_call st c = Inr st1"
  then show ?thesis
    using Add by (auto simp add: additive_add_result AdditiveLayerStore_inv_def queue_len_def split: if_splits)
next
  case (Erase l)
  assume "AdditiveLayerStore_inv st" "AdditiveLayerStore_call st c = Inr st1"
  then show ?thesis
    using Erase by (auto simp add: additive_erase_result AdditiveLayerStore_inv_def queue_len_def split: list.splits)
next
  case Special
  assume "AdditiveLayerStore_inv st" "AdditiveLayerStore_call st c = Inr st1"
  then show ?thesis
    using Special by (auto simp add: additive_special_under_inv AdditiveLayerStore_inv_def queue_len_def)
next
  case (GetColor start timestamp x y)
  assume "AdditiveLayerStore_inv st" "AdditiveLayerStore_call st c = Inr st1"
  then show ?thesis
    using GetColor by (auto simp add: additive_get_color_under_inv)
qed

lemma additive_inv_run:
  "AdditiveLayerStore_inv st \<Longrightarrow> AdditiveLayerStore_run st cs = Inr st1 \<Longrightarrow> AdditiveLayerStore_inv st1"
proof (induction cs arbitrary: st)
  case Nil
  then show ?case by simp
next
  case (Cons c cs)
  then show ?case
    by (auto split: sum.splits dest: additive_inv_call)
qed

lemma additive_run_adds:
  "length (queue_items (layer_queue st)) + length ls \<le> queue_capacity (layer_queue st) \<Longrightarrow>
   AdditiveLayerStore_run st (map Add ls) =
     Inr (st\<lparr>layer_queue := (layer_queue st)\<lparr>queue_items := queue_items (layer_queue st) @ ls\<rparr>\<rparr>)"
proof (induction ls arbitrary: st)
  case Nil
  then show ?case by simp
next
  case (Cons l ls)
  let ?st1 = "st\<lparr>layer_queue := (layer_queue st)\<lparr>queue_items := queue_items (layer_queue st) @ [l]\<rparr>\<rparr>"
  have step: "AdditiveLayerStore_add st l = Inr (True, ?st1)"
    using Cons.prems by (simp add: additive_add_result)
  have "AdditiveLayerStore_run ?st1 (map Add ls) =
     Inr (?st1\<lparr>layer_queue := (layer_queue ?st1)\<lparr>queue_items := queue_items (layer_queue ?st1) @ ls\<rparr>\<rparr>)"
    using Cons.prems by (intro Cons.IH) simp
  then show ?case
    by (simp add: step)
qed

section \<open>AdditiveLayerStore: get_color, special, erase\<close>

text \<open>
  C4. For layers \<open>[L1, ..., Ln]\<close> that fit the capacity of the queue, the \<open>add\<close>
  calls on a new store all return, the queue then holds the layers in this order from head
  to tail, and \<open>get_color\<close> returns the left fold
  \<open>Ln.apply(...(L1.apply(start, ...))...)\<close> together with the very store it was called
  on: the order from head to tail is as before, and a repeated call returns the same.
\<close>

theorem AdditiveLayerStore_get_color_left_fold:
  assumes "length ls \<le> length get_layers * 100"
  shows "\<exists>st. AdditiveLayerStore_run (AdditiveLayerStore_init get_layers) (map Add ls) = Inr st \<and>
     queue_items (layer_queue st) = ls \<and>
     AdditiveLayerStore_get_color st start timestamp x y =
       Inr (compose_layers ls start timestamp x y, st)"
proof -
  let ?init = "AdditiveLayerStore_init get_layers"
  let ?st = "?init\<lparr>layer_queue := (layer_queue ?init)\<lparr>queue_items := queue_items (layer_queue ?init) @ ls\<rparr>\<rparr>"
  have run: "AdditiveLayerStore_run ?init (map Add ls) = Inr ?st"
    using assms by (intro additive_run_adds) (simp add: AdditiveLayerStore_init_def CircularQueue_init_def)
  have items: "queue_items (layer_queue ?st) = ls"
    by (simp add: AdditiveLayerStore_init_def CircularQueue_init_def)
  have "AdditiveLayerStore_inv ?st"
    using additive_inv_run [OF additive_inv_init run] .
  then have "AdditiveLayerStore_get_color ?st start timestamp x y =
       Inr (compose_layers (queue_items (layer_queue ?st)) start timestamp x y, ?st)"
    by (rule additive_get_color_under_inv)
  with run items show ?thesis
    by (metis (no_types, lifting))
qed

theorem AdditiveLayerStore_get_color_left_fold_witness:
  "\<exists>st. AdditiveLayerStore_run (AdditiveLayerStore_init fruit_catalogue)
       [Add (example_layer 0 ''apple'' 1), Add (example_layer 1 ''banana'' 2), Add (example_layer 2 ''cherry'' 3)] = Inr st \<and>
     queue_items (layer_queue st) =
       [example_layer 0 ''apple'' 1, example_layer 1 ''banana'' 2, example_layer 2 ''cherry'' 3] \<and>
     AdditiveLayerStore_get_color st (1, 2, 3) 7 0 0 = Inr ((19, 23, 3), st)"
  using AdditiveLayerStore_get_color_left_fold
    [of "[example_layer 0 ''apple'' 1, example_layer 1 ''banana'' 2, example_layer 2 ''cherry'' 3]"
        fruit_catalogue "(1, 2, 3)" 7 0 0]
  by (simp add: fruit_catalogue_def example_layer_def)

text \<open>
  C5. On every store reached from a new one by calls of \<open>add\<close>, \<open>erase\<close>,
  \<open>special\<close> and \<open>get_color\<close>, \<open>special\<close> returns a store whose queue is the
  reverse, from head to tail, of the queue before (so \<open>get_color\<close> folds the layers in
  the reverse order), and a second \<open>special\<close> returns the store before the first:
  \<open>get_color\<close> then returns what it returned before either call.
\<close>

theorem AdditiveLayerStore_special_involution:
  assumes "AdditiveLayerStore_run (AdditiveLayerStore_init get_layers) calls = Inr st"
  shows "\<exists>st1 st2. AdditiveLayerStore_special st = Inr st1 \<and>
     queue_items (layer_queue st1) = rev (queue_items (layer_queue st)) \<and>
     AdditiveLayerStore_get_color st1 start timestamp x y =
       Inr (compose_layers (rev (queue_items (layer_queue st))) start timestamp x y, st1) \<and>
     AdditiveLayerStore_special st1 = Inr st2 \<and> st2 = st \<and>
     AdditiveLayerStore_get_color st2 start timestamp x y =
       AdditiveLayerStore_get_color st start timestamp x y"
proof -
  let ?st1 = "st\<lparr>layer_queue := (layer_queue st)\<lparr>queue_items := rev (queue_items (layer_queue st))\<rparr>\<rparr>"
  have inv: "AdditiveLayerStore_inv st"
    using additive_inv_run [OF additive_inv_init assms] .
  have first: "AdditiveLayerStore_special st = Inr ?st1"
    using inv by (rule additive_special_under_inv)
  have inv1: "AdditiveLayerStore_inv ?st1"
    using inv by (simp add: AdditiveLayerStore_inv_def queue_len_def)
  have second: "AdditiveLayerStore_special ?st1 = Inr st"
    by (simp add: additive_special_under_inv [OF inv1])
  have colour: "AdditiveLayerStore_get_color ?st1 start timestamp x y =
       Inr (compose_layers (rev (queue_items (layer_queue st))) start timestamp x y, ?st1)"
    by (simp add: additive_get_color_under_inv [OF inv1])
  show ?thesis
    using first second colour by simp
qed

theorem AdditiveLayerStore_special_involution_witness:
  "AdditiveLayerStore_run (AdditiveLayerStore_init fruit_catalogue)
      [Add (example_layer 0 ''apple'' 1), Add (example_layer 1 ''banana'' 2),
       Erase (example_layer 4 ''egg'' 5), Add (example_layer 2 ''cherry'' 3)] =
     Inr ((AdditiveLayerStore_init fruit_catalogue)
           \<lparr>layer_queue := (CircularQueue_init 600)
              \<lparr>queue_items := [example_layer 1 ''banana'' 2, example_layer 2 ''cherry'' 3]\<rparr>\<rparr>) \<and>
   (\<exists>st1 st2.
      AdditiveLayerStore_special ((AdditiveLayerStore_init fruit_catalogue)
           \<lparr>layer_queue := (CircularQueue_init 600)
              \<lparr>queue_items := [example_layer 1 ''banana'' 2, example_layer 2 ''cherry'' 3]\<rparr>\<rparr>) = Inr st1 \<and>
      queue_items (layer_queue st1) = [example_layer 2 ''cherry'' 3, example_layer 1 ''banana'' 2] \<and>
      AdditiveLayerStore_get_color st1 (1, 2, 3) 7 0 0 = Inr ((12, 16, 3), st1) \<and>
      AdditiveLayerStore_special st1 = Inr st2 \<and>
      AdditiveLayerStore_get_color st2 (1, 2, 3) 7 0 0 = Inr ((11, 16, 3), st2))"
proof -
  let ?calls = "[Add (example_layer 0 ''apple'' 1), Add (example_layer 1 ''banana'' 2),
       Erase (example_layer 4 ''egg'' 5), Add (example_layer 2 ''cherry'' 3)]"
  let ?st = "(AdditiveLayerStore_init fruit_catalogue)
           \<lparr>layer_queue := (CircularQueue_init 600)
              \<lparr>queue_items := [example_layer 1 ''banana'' 2, example_layer 2 ''cherry'' 3]\<rparr>\<rparr>"
  have run: "AdditiveLayerStore_run (AdditiveLayerStore_init fruit_catalogue) ?calls = Inr ?st"
    by (simp add: additive_add_result additive_erase_result AdditiveLayerStore_init_def CircularQueue_init_def
        fruit_catalogue_def)
  have before: "AdditiveLayerStore_get_color ?st (1, 2, 3) 7 0 0 = Inr ((11, 16, 3), ?st)"
    using additive_get_color_under_inv [OF additive_inv_run [OF additive_inv_init run], of "(1, 2, 3)" 7 0 0]
    by (simp add: CircularQueue_init_def example_layer_def)
  obtain st1 st2 where
    first: "AdditiveLayerStore_special ?st = Inr st1" and
    reversed: "queue_items (layer_queue st1) = rev (queue_items (layer_queue ?st))" and
    colour1: "AdditiveLayerStore_get_color st1 (1, 2, 3) 7 0 0 =
       Inr (compose_layers (rev (queue_items (layer_queue ?st))) (1, 2, 3) 7 0 0, st1)" and
    second: "AdditiveLayerStore_special st1 = Inr st2" and
    same: "st2 = ?st" and
    colour2: "AdditiveLayerStore_get_color st2 (1, 2, 3) 7 0 0 =
       AdditiveLayerStore_get_color ?st (1, 2, 3) 7 0 0"
    using AdditiveLayerStore_special_involution [OF run, of "(1, 2, 3)" 7 0 0] by blast
  have "queue_items (layer_queue st1) = [example_layer 2 ''cherry'' 3, example_layer 1 ''banana'' 2]"
    using reversed by simp
  moreover have "AdditiveLayerStore_get_color st1 (1, 2, 3) 7 0 0 = Inr ((12, 16, 3), st1)"
    using colour1 by (simp add: example_layer_def)
  moreover have "AdditiveLayerStore_get_color st2 (1, 2, 3) 7 0 0 = Inr ((11, 16, 3), st2)"
    using before same by simp
  ultimately show ?thesis
    using run first second by blast
qed

text \<open>
  C6. \<open>erase\<close> of the additive store raises the underflow of the queue when the queue
  is empty; otherwise it returns \<open>True\<close> and removes the head of the queue and nothing
  else, whatever its argument. After \<open>add\<close> of \<open>L1\<close>, \<open>L2\<close>, \<open>L3\<close> on a
  new store (whose capacity is at least 3 when the catalogue is not empty), one \<open>erase\<close>
  leaves \<open>[L2, L3]\<close> and \<open>get_color\<close> returns \<open>L3.apply(L2.apply(start))\<close>.
\<close>

theorem AdditiveLayerStore_erase_head:
  "AdditiveLayerStore_erase st arg =
     (case queue_items (layer_queue st) of
        [] \<Rightarrow> Inl Underflow
      | l # rest \<Rightarrow> Inr (True, st\<lparr>layer_queue := (layer_queue st)\<lparr>queue_items := rest\<rparr>\<rparr>)) \<and>
   (get_layers \<noteq> [] \<longrightarrow>
     (\<exists>st3 st2.
        AdditiveLayerStore_run (AdditiveLayerStore_init get_layers) [Add l1, Add l2, Add l3] = Inr st3 \<and>
        AdditiveLayerStore_erase st3 arg = Inr (True, st2) \<and>
        queue_items (layer_queue st2) = [l2, l3] \<and>
        AdditiveLayerStore_get_color st2 start timestamp x y =
          Inr (apply_layer l3 (apply_layer l2 start timestamp x y) timestamp x y, st2)))"
proof (intro conjI impI)
  show "AdditiveLayerStore_erase st arg =
     (case queue_items (layer_queue st) of
        [] \<Rightarrow> Inl Underflow
      | l # rest \<Rightarrow> Inr (True, st\<lparr>layer_queue := (layer_queue st)\<lparr>queue_items := rest\<rparr>\<rparr>))"
    by (rule additive_erase_result)
next
  assume nonempty: "get_layers \<noteq> []"
  let ?init = "AdditiveLayerStore_init get_layers"
  let ?st3 = "?init\<lparr>layer_queue := (layer_queue ?init)\<lparr>queue_items := [l1, l2, l3]\<rparr>\<rparr>"
  let ?st2 = "?init\<lparr>layer_queue := (layer_queue ?init)\<lparr>queue_items := [l2, l3]\<rparr>\<rparr>"
  have cap: "3 \<le> length get_layers * 100"
    using nonempty by (cases get_layers) simp_all
  have run: "AdditiveLayerStore_run ?init (map Add [l1, l2, l3]) = Inr ?st3"
    using cap additive_run_adds [of ?init "[l1, l2, l3]"]
    by (simp add: AdditiveLayerStore_init_def CircularQueue_init_def)
  have erase: "AdditiveLayerStore_erase ?st3 arg = Inr (True, ?st2)"
    by (simp add: additive_erase_result)
  have "AdditiveLayerStore_inv ?st2"
    using cap by (simp add: AdditiveLayerStore_inv_def AdditiveLayerStore_init_def
        CircularQueue_init_def ArrayStack_init_def queue_len_def)
  then have colour: "AdditiveLayerStore_get_color ?st2 start timestamp x y =
      Inr (compose_layers (queue_items (layer_queue ?st2)) start timestamp x y, ?st2)"
    by (rule additive_get_color_under_inv)
  show "\<exists>st3 st2.
        AdditiveLayerStore_run ?init [Add l1, Add l2, Add l3] = Inr st3 \<and>
        AdditiveLayerStore_erase st3 arg = Inr (True, st2) \<and>
        queue_items (layer_queue st2) = [l2, l3] \<and>
        AdditiveLayerStore_get_color st2 start timestamp x y =
          Inr (apply_layer l3 (apply_layer l2 start timestamp x y) timestamp x y, st2)"
  proof (intro exI conjI)
    show "AdditiveLayerStore_run ?init [Add l1, Add l2, Add l3] = Inr ?st3"
      using run by simp
    show "AdditiveLayerStore_erase ?st3 arg = Inr (True, ?st2)"
      by (rule erase)
    show "queue_items (layer_queue ?st2) = [l2, l3]"
      by simp
    show "AdditiveLayerStore_get_color ?st2 start timestamp x y =
          Inr (apply_layer l3 (apply_layer l2 start timestamp x y) timestamp x y, ?st2)"
      using colour by simp
  qed
qed

theorem AdditiveLayerStore_erase_head_witness:
  "fruit_catalogue \<noteq> [] \<and>
   AdditiveLayerStore_erase (AdditiveLayerStore_init fruit_catalogue) (example_layer 4 ''egg'' 5) =
     Inl Underflow \<and>
   (\<exists>st3 st2.
      AdditiveLayerStore_run (AdditiveLayerStore_init fruit_catalogue)
        [Add (example_layer 0 ''apple'' 1), Add (example_layer 1 ''banana'' 2),
         Add (example_layer 2 ''cherry'' 3)] = Inr st3 \<and>
      AdditiveLayerStore_erase st3 (example_layer 4 ''egg'' 5) = Inr (True, st2) \<and>
      queue_items (layer_queue st2) = [example_layer 1 ''banana'' 2, example_layer 2 ''cherry'' 3] \<and>
      AdditiveLayerStore_get_color st2 (1, 2, 3) 7 0 0 = Inr ((11, 16, 3), st2))"
proof -
  have nonempty: "fruit_catalogue \<noteq> []"
    by (simp add: fruit_catalogue_def)
  have empty: "queue_items (layer_queue (AdditiveLayerStore_init fruit_catalogue)) = []"
    by (simp add: AdditiveLayerStore_init_def CircularQueue_init_def)
  show ?thesis
    using nonempty empty
      AdditiveLayerStore_erase_head [of "AdditiveLayerStore_init fruit_catalogue"
        "example_layer 4 ''egg'' 5" fruit_catalogue "example_layer 0 ''apple'' 1"
        "example_layer 1 ''banana'' 2" "example_layer 2 ''cherry'' 3" "(1, 2, 3)" 7 0 0]
    by (simp add: example_layer_def)
qed

section \<open>SequenceLayerStore: add, erase, get_color\<close>

lemma bset_contains_in_universe:
  "i < universe s \<Longrightarrow> bset_contains s (Suc i) = Inr (Suc i \<in> elems s)"
  by (simp add: bset_contains_def bset_check_def)

lemma bset_add_in_universe:
  "i < universe s \<Longrightarrow> bset_add s (Suc i) = Inr (s\<lparr>elems := insert (Suc i) (elems s)\<rparr>)"
  by (simp add: bset_add_def bset_check_def)

lemma bset_remove_member:
  "i < universe s \<Longrightarrow> Suc i \<in> elems s \<Longrightarrow>
   bset_remove s (Suc i) = Inr (s\<lparr>elems := elems s - {Suc i}\<rparr>)"
  by (simp add: bset_remove_def bset_check_def)

lemma bset_remove_universe:
  "bset_remove s i = Inr s1 \<Longrightarrow> universe s1 = universe s"
  by (auto simp add: bset_remove_def split: option.splits if_splits)

lemma bset_add_universe:
  "bset_add s i = Inr s1 \<Longrightarrow> universe s1 = universe s"
  by (auto simp add: bset_add_def split: option.splits)

text \<open>
  C8. For a layer whose item \<open>index + 1\<close> is within the universe of the bitset,
  \<open>add\<close> returns true if and only if the item was not a member, and the item is a
  member afterwards; \<open>erase\<close> returns true if and only if the item was a member, and the
  item is no member afterwards. Neither raises: \<open>add\<close> of a member and \<open>erase\<close> of
  a layer that is no member return \<open>False\<close> and leave the store as it was.
\<close>

theorem SequenceLayerStore_add_erase_membership:
  assumes "index l < universe (layer_set st)"
  shows "SequenceLayerStore_add st l =
       Inr (index l + 1 \<notin> elems (layer_set st),
            st\<lparr>layer_set := (layer_set st)\<lparr>elems := insert (index l + 1) (elems (layer_set st))\<rparr>\<rparr>) \<and>
     SequenceLayerStore_erase st l =
       Inr (index l + 1 \<in> elems (layer_set st),
            st\<lparr>layer_set := (layer_set st)\<lparr>elems := elems (layer_set st) - {index l + 1}\<rparr>\<rparr>) \<and>
     (index l + 1 \<in> elems (layer_set st) \<longrightarrow> SequenceLayerStore_add st l = Inr (False, st)) \<and>
     (index l + 1 \<notin> elems (layer_set st) \<longrightarrow> SequenceLayerStore_erase st l = Inr (False, st))"
proof -
  have contains: "bset_contains (layer_set st) (index l + 1) = Inr (index l + 1 \<in> elems (layer_set st))"
    using assms by (simp add: bset_contains_in_universe)
  have add: "SequenceLayerStore_add st l =
      (if index l + 1 \<in> elems (layer_set st) then Inr (False, st)
       else Inr (True, st\<lparr>layer_set := (layer_set st)\<lparr>elems := insert (index l + 1) (elems (layer_set st))\<rparr>\<rparr>))"
    using assms by (simp add: SequenceLayerStore_add_def bset_contains_in_universe bset_add_in_universe)
  have erase: "SequenceLayerStore_erase st l =
      (if index l + 1 \<notin> elems (layer_set st) then Inr (False, st)
       else Inr (True, st\<lparr>layer_set := (layer_set st)\<lparr>elems := elems (layer_set st) - {index l + 1}\<rparr>\<rparr>))"
    using assms by (simp add: SequenceLayerStore_erase_def bset_contains_in_universe bset_remove_member)
  have same_add: "index l + 1 \<in> elems (layer_set st) \<Longrightarrow>
      st\<lparr>layer_set := (layer_set st)\<lparr>elems := insert (index l + 1) (elems (layer_set st))\<rparr>\<rparr> = st"
    by (simp add: insert_absorb)
  have same_erase: "index l + 1 \<notin> elems (layer_set st) \<Longrightarrow>
      st\<lparr>layer_set := (layer_set st)\<lparr>elems := elems (layer_set st) - {index l + 1}\<rparr>\<rparr> = st"
    by simp
  show ?thesis
    using same_add same_erase by (simp add: add erase)
qed

theorem SequenceLayerStore_add_erase_membership_witness:
  "index (example_layer 2 ''cherry'' 3) < universe (layer_set (SequenceLayerStore_init fruit_catalogue)) \<and>
   SequenceLayerStore_add (SequenceLayerStore_init fruit_catalogue) (example_layer 2 ''cherry'' 3) =
     Inr (True, (SequenceLayerStore_init fruit_catalogue)\<lparr>layer_set := (BSet_init 9)\<lparr>elems := {3}\<rparr>\<rparr>) \<and>
   SequenceLayerStore_erase (SequenceLayerStore_init fruit_catalogue) (example_layer 2 ''cherry'' 3) =
     Inr (False, SequenceLayerStore_init fruit_catalogue) \<and>
   index (example_layer 2 ''cherry'' 3) <
     universe (layer_set ((SequenceLayerStore_init fruit_catalogue)\<lparr>layer_set := (BSet_init 9)\<lparr>elems := {3}\<rparr>\<rparr>)) \<and>
   SequenceLayerStore_add
       ((SequenceLayerStore_init fruit_catalogue)\<lparr>layer_set := (BSet_init 9)\<lparr>elems := {3}\<rparr>\<rparr>)
       (example_layer 2 ''cherry'' 3) =
     Inr (False, (SequenceLayerStore_init fruit_catalogue)\<lparr>layer_set := (BSet_init 9)\<lparr>elems := {3}\<rparr>\<rparr>) \<and>
   SequenceLayerStore_erase
       ((SequenceLayerStore_init fruit_catalogue)\<lparr>layer_set := (BSet_init 9)\<lparr>elems := {3}\<rparr>\<rparr>)
       (example_layer 2 ''cherry'' 3) =
     Inr (True, SequenceLayerStore_init fruit_catalogue)"
proof -
  let ?init = "SequenceLayerStore_init fruit_catalogue"
  let ?st = "?init\<lparr>layer_set := (BSet_init 9)\<lparr>elems := {3}\<rparr>\<rparr>"
  let ?l = "example_layer 2 ''cherry'' 3"
  have within: "index ?l < universe (layer_set ?init)"
    by (simp add: example_layer_fields SequenceLayerStore_init_def BSet_init_def)
  have within1: "index ?l < universe (layer_set ?st)"
    by (simp add: example_layer_fields SequenceLayerStore_init_def BSet_init_def)
  show ?thesis
    using within within1
      SequenceLayerStore_add_erase_membership [OF within]
      SequenceLayerStore_add_erase_membership [OF within1]
    by (simp add: example_layer_fields SequenceLayerStore_init_def BSet_init_def)
qed

lemma sequence_get_color_loop_fold:
  "catalogue_fits ls (universe s) \<Longrightarrow>
   sequence_get_color_loop ls s c timestamp x y =
     Inr (compose_layers (catalogue_members ls (elems s)) c timestamp x y)"
proof (induction ls "universe s" arbitrary: c rule: catalogue_fits.induct)
  case 1
  then show ?case by simp
next
  case (2 rest)
  then show ?case by simp
next
  case (3 l rest)
  then show ?case
    by (simp add: bset_contains_in_universe)
qed

lemma catalogue_members_indexed:
  "catalogue_indexed k ls \<Longrightarrow>
   sorted_wrt (<) (map index (catalogue_members ls items)) \<and>
   (\<forall>l \<in> set (catalogue_members ls items). k \<le> index l)"
proof (induction k ls rule: catalogue_indexed.induct)
  case (1 k)
  then show ?case by simp
next
  case (2 k rest)
  then show ?case by (auto intro: Suc_leD)
next
  case (3 k l rest)
  then show ?case by (auto intro: Suc_leD)
qed

lemma sequence_call_frame:
  "SequenceLayerStore_call st c = Inr st1 \<Longrightarrow>
   layer_list st1 = layer_list st \<and> universe (layer_set st1) = universe (layer_set st) \<and>
   is_specialized st1 = is_specialized st \<and> SequenceLayerStore.more st1 = SequenceLayerStore.more st \<and>
   BSet.more (layer_set st1) = BSet.more (layer_set st)"
proof (cases c)
  case (Add l)
  assume "SequenceLayerStore_call st c = Inr st1"
  then show ?thesis
    using Add
    by (auto simp add: SequenceLayerStore_add_def bset_add_def split: sum.splits if_splits option.splits)
next
  case (Erase l)
  assume "SequenceLayerStore_call st c = Inr st1"
  then show ?thesis
    using Erase
    by (auto simp add: SequenceLayerStore_erase_def bset_remove_def split: sum.splits if_splits option.splits)
next
  case Special
  assume "SequenceLayerStore_call st c = Inr st1"
  then show ?thesis
    using Special
    by (auto simp add: SequenceLayerStore_special_def bset_remove_def Let_def
        split: sum.splits if_splits option.splits)
next
  case (GetColor start timestamp x y)
  assume "SequenceLayerStore_call st c = Inr st1"
  then show ?thesis
    using GetColor
    by (cases "SequenceLayerStore_get_color st start timestamp x y") auto
qed

lemma sequence_run_frame:
  "SequenceLayerStore_run st cs = Inr st1 \<Longrightarrow>
   layer_list st1 = layer_list st \<and> universe (layer_set st1) = universe (layer_set st) \<and>
   is_specialized st1 = is_specialized st \<and> SequenceLayerStore.more st1 = SequenceLayerStore.more st \<and>
   BSet.more (layer_set st1) = BSet.more (layer_set st)"
proof (induction cs arbitrary: st)
  case Nil
  then show ?case by simp
next
  case (Cons c cs)
  then obtain st2 where step: "SequenceLayerStore_call st c = Inr st2"
    and rest: "SequenceLayerStore_run st2 cs = Inr st1"
    by (auto split: sum.splits)
  show ?case
    using sequence_call_frame [OF step] Cons.IH [OF rest] by simp
qed

text \<open>
  C7. With a catalogue that fits the bitset and is indexed from 0: two stores reached from
  a new one by any two sequences of calls, with the same set of member items, return the
  same colour from \<open>get_color\<close> for every start colour, timestamp and coordinates; the
  colour is the left fold of the member layers in the order of the catalogue, and their
  catalogue indices ascend strictly along that order.
\<close>

theorem SequenceLayerStore_get_color_by_membership:
  assumes fits: "catalogue_fits get_layers 9"
    and indexed: "catalogue_indexed 0 get_layers"
    and run1: "SequenceLayerStore_run (SequenceLayerStore_init get_layers) calls1 = Inr st1"
    and run2: "SequenceLayerStore_run (SequenceLayerStore_init get_layers) calls2 = Inr st2"
    and same: "elems (layer_set st1) = elems (layer_set st2)"
  shows "SequenceLayerStore_get_color st1 start timestamp x y =
       SequenceLayerStore_get_color st2 start timestamp x y \<and>
     SequenceLayerStore_get_color st1 start timestamp x y =
       Inr (compose_layers (member_layers st1) start timestamp x y) \<and>
     sorted_wrt (<) (map index (member_layers st1))"
proof -
  have frame1: "layer_list st1 = get_layers" "universe (layer_set st1) = 9"
    using sequence_run_frame [OF run1] by (simp_all add: SequenceLayerStore_init_def BSet_init_def)
  have frame2: "layer_list st2 = get_layers" "universe (layer_set st2) = 9"
    using sequence_run_frame [OF run2] by (simp_all add: SequenceLayerStore_init_def BSet_init_def)
  have fold1: "SequenceLayerStore_get_color st1 start timestamp x y =
       Inr (compose_layers (member_layers st1) start timestamp x y)"
    using fits by (simp add: SequenceLayerStore_get_color_def member_layers_def frame1
        sequence_get_color_loop_fold)
  have fold2: "SequenceLayerStore_get_color st2 start timestamp x y =
       Inr (compose_layers (member_layers st2) start timestamp x y)"
    using fits by (simp add: SequenceLayerStore_get_color_def member_layers_def frame2
        sequence_get_color_loop_fold)
  have members: "member_layers st1 = member_layers st2"
    by (simp add: member_layers_def frame1 frame2 same)
  have ascending: "sorted_wrt (<) (map index (member_layers st1))"
    using catalogue_members_indexed [OF indexed] by (simp add: member_layers_def frame1)
  show ?thesis
    using fold1 fold2 members ascending by simp
qed

theorem SequenceLayerStore_get_color_by_membership_witness:
  "catalogue_fits fruit_catalogue 9 \<and> catalogue_indexed 0 fruit_catalogue \<and>
   SequenceLayerStore_run (SequenceLayerStore_init fruit_catalogue)
      [Add (example_layer 2 ''cherry'' 3), Add (example_layer 0 ''apple'' 1),
       Add (example_layer 1 ''banana'' 2)] =
     Inr ((SequenceLayerStore_init fruit_catalogue)\<lparr>layer_set := (BSet_init 9)\<lparr>elems := {1, 2, 3}\<rparr>\<rparr>) \<and>
   SequenceLayerStore_run (SequenceLayerStore_init fruit_catalogue)
      [Add (example_layer 0 ''apple'' 1), Add (example_layer 3 ''date'' 4),
       Add (example_layer 1 ''banana'' 2), Erase (example_layer 3 ''date'' 4),
       Add (example_layer 2 ''cherry'' 3)] =
     Inr ((SequenceLayerStore_init fruit_catalogue)\<lparr>layer_set := (BSet_init 9)\<lparr>elems := {1, 2, 3}\<rparr>\<rparr>) \<and>
   SequenceLayerStore_get_color
      ((SequenceLayerStore_init fruit_catalogue)\<lparr>layer_set := (BSet_init 9)\<lparr>elems := {1, 2, 3}\<rparr>\<rparr>)
      (1, 2, 3) 7 0 0 = Inr (19, 23, 3) \<and>
   map index (member_layers
      ((SequenceLayerStore_init fruit_catalogue)\<lparr>layer_set := (BSet_init 9)\<lparr>elems := {1, 2, 3}\<rparr>\<rparr>)) =
     [0, 1, 2]"
proof -
  let ?st = "(SequenceLayerStore_init fruit_catalogue)\<lparr>layer_set := (BSet_init 9)\<lparr>elems := {1, 2, 3}\<rparr>\<rparr>"
  have fits: "catalogue_fits fruit_catalogue 9"
    by (simp add: fruit_catalogue_def example_layer_fields)
  have indexed: "catalogue_indexed 0 fruit_catalogue"
    by (simp add: fruit_catalogue_def example_layer_fields)
  have run1: "SequenceLayerStore_run (SequenceLayerStore_init fruit_catalogue)
      [Add (example_layer 2 ''cherry'' 3), Add (example_layer 0 ''apple'' 1),
       Add (example_layer 1 ''banana'' 2)] = Inr ?st"
    by (simp add: SequenceLayerStore_add_def bset_contains_def bset_add_def bset_check_def
        SequenceLayerStore_init_def BSet_init_def example_layer_fields insert_commute
        numeral_2_eq_2 [symmetric])
  have run2: "SequenceLayerStore_run (SequenceLayerStore_init fruit_catalogue)
      [Add (example_layer 0 ''apple'' 1), Add (example_layer 3 ''date'' 4),
       Add (example_layer 1 ''banana'' 2), Erase (example_layer 3 ''date'' 4),
       Add (example_layer 2 ''cherry'' 3)] = Inr ?st"
    by (simp add: SequenceLayerStore_add_def SequenceLayerStore_erase_def bset_contains_def
        bset_add_def bset_remove_def bset_check_def
        SequenceLayerStore_init_def BSet_init_def example_layer_fields insert_commute
        insert_Diff_if numeral_2_eq_2 [symmetric])
  have members: "member_layers ?st =
      [example_layer 0 ''apple'' 1, example_layer 1 ''banana'' 2, example_layer 2 ''cherry'' 3]"
    by (simp add: member_layers_def SequenceLayerStore_init_def BSet_init_def fruit_catalogue_def
        example_layer_fields)
  have "SequenceLayerStore_get_color ?st (1, 2, 3) 7 0 0 =
       Inr (compose_layers (member_layers ?st) (1, 2, 3) 7 0 0)"
    using SequenceLayerStore_get_color_by_membership [OF fits indexed run1 run2 refl, of "(1, 2, 3)" 7 0 0]
    by blast
  then have colour: "SequenceLayerStore_get_color ?st (1, 2, 3) 7 0 0 = Inr (19, 23, 3)"
    unfolding members by (simp add: example_layer_def)
  have indices: "map index (member_layers ?st) = [0, 1, 2]"
    unfolding members by (simp add: example_layer_fields)
  show ?thesis
    using fits indexed run1 run2 colour indices by (intro conjI)
qed

section \<open>SequenceLayerStore: special\<close>












section \<open>UndoTracker: the stacks of the class\<close>

lemma getattr_class:
  assumes "plain_instance st t" and "class_dict st attr = Some a"
    and "attr = ''history_stack'' \<or> attr = ''undo_stack''"
  shows "getattr st t attr = Inr a"
  using assms by (auto simp add: getattr_def plain_instance_def split: option.splits)

lemma class_attributes_stacks:
  assumes "class_attributes st"
  obtains h u hs us where
    "class_dict st ''history_stack'' = Some h" "class_dict st ''undo_stack'' = Some u" "h \<noteq> u"
    "objects st h = Some hs" "objects st u = Some us"
    "stack_capacity hs = 10000" "stack_capacity us = 10000"
  using assms by (auto simp add: class_attributes_def split: option.splits)

lemma UndoTracker_add_action_result:
  assumes inst: "plain_instance st t"
    and h: "class_dict st ''history_stack'' = Some h" and u: "class_dict st ''undo_stack'' = Some u"
    and distinct: "h \<noteq> u" and hs: "objects st h = Some hs" and us: "objects st u = Some us"
  shows "UndoTracker_add_action st t a =
     (if stack_is_full hs then Inl CapacityExceeded
      else Inr (st\<lparr>objects := (objects st)(u \<mapsto> stack_clear us, h \<mapsto> hs\<lparr>stack_items := a # stack_items hs\<rparr>)\<rparr>))"
proof -
  have attr_h: "getattr st t ''history_stack'' = Inr h"
    and attr_u: "getattr st t ''undo_stack'' = Inr u"
    using inst h u by (simp_all add: getattr_class)
  show ?thesis
  proof (cases "stack_is_empty us")
    case True
    then have "stack_clear us = us"
      by (simp add: stack_is_empty_def stack_len_def stack_clear_def)
    then have same: "(objects st)(u \<mapsto> stack_clear us) = objects st"
      using us by (simp add: fun_upd_idem)
    show ?thesis
      using True distinct
      by (simp add: UndoTracker_add_action_def attr_h attr_u bind_err_def store_stack_def hs us
          store_push_def stack_push_def same)
  next
    case False
    then show ?thesis
      using distinct
      by (simp add: UndoTracker_add_action_def attr_h attr_u bind_err_def store_stack_def hs us
          store_push_def stack_push_def store_clear_def stack_clear_def stack_len_def
          fun_upd_twist)
  qed
qed

lemma class_body_attributes: "class_attributes UndoTracker_class_body"
  by (simp add: class_attributes_def UndoTracker_class_body_def ArrayStack_init_def)

lemma new_instance_plain:
  "plain_instance (snd (UndoTracker_new st)) (fst (UndoTracker_new st))"
  by (simp add: plain_instance_def UndoTracker_new_def)

lemma new_keeps_plain:
  "plain_instance st t \<Longrightarrow> plain_instance (snd (UndoTracker_new st)) t"
  by (simp add: plain_instance_def UndoTracker_new_def)

lemma new_keeps_class_attributes:
  "class_attributes st \<Longrightarrow> class_attributes (snd (UndoTracker_new st))"
  by (auto simp add: class_attributes_def UndoTracker_new_def split: option.splits)

lemma add_action_keeps:
  assumes inst: "plain_instance st t" and cls: "class_attributes st"
    and added: "UndoTracker_add_action st t a = Inr st1"
  shows "class_attributes st1 \<and> instance_dicts st1 = instance_dicts st"
proof -
  obtain h u hs us where
    h: "class_dict st ''history_stack'' = Some h" and u: "class_dict st ''undo_stack'' = Some u" and
    distinct: "h \<noteq> u" and hs: "objects st h = Some hs" and us: "objects st u = Some us" and
    caps: "stack_capacity hs = 10000" "stack_capacity us = 10000"
    using cls by (rule class_attributes_stacks)
  have "st1 = st\<lparr>objects := (objects st)(u \<mapsto> stack_clear us, h \<mapsto> hs\<lparr>stack_items := a # stack_items hs\<rparr>)\<rparr>"
    using added UndoTracker_add_action_result [OF inst h u distinct hs us, of a]
    by (simp split: if_splits)
  then show ?thesis
    using h u distinct caps by (simp add: class_attributes_def stack_clear_def)
qed

text \<open>
  C10. \<open>history_stack\<close> and \<open>undo_stack\<close> are attributes of the class, read by
  every instance: two instances as the class makes them read the same two stack objects,
  at the addresses \<open>h\<close> and \<open>u\<close>. When \<open>t1.add_action(a)\<close> has returned, the
  store is the one before it with \<open>a\<close> pushed on the history stack at \<open>h\<close> and
  the undo stack at \<open>u\<close> cleared. Then \<open>t2.undo(grid)\<close> returns that action
  \<open>a\<close> with the grid after its \<open>undo_apply\<close>, and the store it leaves is the one
  before \<open>add_action\<close> but for the undo stack: the history stack at \<open>h\<close> is again
  the one \<open>t1\<close> pushed on (\<open>a\<close> is popped), and the undo stack at \<open>u\<close> holds
  \<open>a\<close> alone. The instances have no history of their own.
\<close>

theorem UndoTracker_stacks_shared:
  assumes t1: "plain_instance st t1" and t2: "plain_instance st t2"
    and cls: "class_attributes st"
    and added: "UndoTracker_add_action st t1 a = Inr st1"
  shows "\<exists>h u hs us.
     getattr st t1 ''history_stack'' = Inr h \<and> getattr st t2 ''history_stack'' = Inr h \<and>
     getattr st t1 ''undo_stack'' = Inr u \<and> getattr st t2 ''undo_stack'' = Inr u \<and>
     store_stack st h = Inr hs \<and> store_stack st u = Inr us \<and>
     st1 = st\<lparr>objects := (objects st)
             (u \<mapsto> us\<lparr>stack_items := []\<rparr>, h \<mapsto> hs\<lparr>stack_items := a # stack_items hs\<rparr>)\<rparr> \<and>
     UndoTracker_undo undo_apply st1 t2 grid =
       Inr (Some a, undo_apply a grid,
            st\<lparr>objects := (objects st)(u \<mapsto> us\<lparr>stack_items := [a]\<rparr>, h \<mapsto> hs)\<rparr>)"
proof -
  obtain h u hs us where
    h: "class_dict st ''history_stack'' = Some h" and u: "class_dict st ''undo_stack'' = Some u" and
    distinct: "h \<noteq> u" and hs: "objects st h = Some hs" and us: "objects st u = Some us" and
    cap: "stack_capacity us = 10000"
    using cls by (rule class_attributes_stacks)
  have attrs: "getattr st t1 ''history_stack'' = Inr h" "getattr st t2 ''history_stack'' = Inr h"
    "getattr st t1 ''undo_stack'' = Inr u" "getattr st t2 ''undo_stack'' = Inr u"
    using t1 t2 h u by (simp_all add: getattr_class)
  have stacks: "store_stack st h = Inr hs" "store_stack st u = Inr us"
    using hs us by (simp_all add: store_stack_def)
  let ?st1 = "st\<lparr>objects := (objects st)
      (u \<mapsto> us\<lparr>stack_items := []\<rparr>, h \<mapsto> hs\<lparr>stack_items := a # stack_items hs\<rparr>)\<rparr>"
  let ?st1' = "st\<lparr>objects := (objects st)(u \<mapsto> us\<lparr>stack_items := []\<rparr>, h \<mapsto> hs)\<rparr>"
  let ?st2 = "st\<lparr>objects := (objects st)(u \<mapsto> us\<lparr>stack_items := [a]\<rparr>, h \<mapsto> hs)\<rparr>"
  have st1: "st1 = ?st1"
    using added UndoTracker_add_action_result [OF t1 h u distinct hs us, of a]
    by (simp add: stack_clear_def split: if_splits)
  have inst1: "plain_instance ?st1 t2"
    using t2 by (simp add: plain_instance_def)
  have attr_h: "getattr ?st1 t2 ''history_stack'' = Inr h"
    using inst1 h by (simp add: getattr_class)
  have inst1': "plain_instance ?st1' t2"
    using t2 by (simp add: plain_instance_def)
  have attr_u: "getattr ?st1' t2 ''undo_stack'' = Inr u"
    using inst1' u by (simp add: getattr_class)
  have stack1: "store_stack ?st1 h = Inr (hs\<lparr>stack_items := a # stack_items hs\<rparr>)"
    by (simp add: store_stack_def)
  have pop: "store_pop ?st1 h = Inr (a, ?st1')"
    by (simp add: store_pop_def store_stack_def stack_pop_def bind_err_def)
  have push: "store_push ?st1' u a = Inr ?st2"
    using distinct cap
    by (simp add: store_push_def store_stack_def stack_push_def bind_err_def
        stack_is_full_def stack_len_def fun_upd_twist)
  have undo: "UndoTracker_undo undo_apply ?st1 t2 grid = Inr (Some a, undo_apply a grid, ?st2)"
    by (simp add: UndoTracker_undo_def attr_h stack1 pop attr_u push bind_err_def
        stack_is_empty_def stack_len_def)
  show ?thesis
  proof (intro exI conjI)
    show "getattr st t1 ''history_stack'' = Inr h" by (rule attrs(1))
    show "getattr st t2 ''history_stack'' = Inr h" by (rule attrs(2))
    show "getattr st t1 ''undo_stack'' = Inr u" by (rule attrs(3))
    show "getattr st t2 ''undo_stack'' = Inr u" by (rule attrs(4))
    show "store_stack st h = Inr hs" by (rule stacks(1))
    show "store_stack st u = Inr us" by (rule stacks(2))
    show "st1 = ?st1" by (rule st1)
    show "UndoTracker_undo undo_apply st1 t2 grid = Inr (Some a, undo_apply a grid, ?st2)"
      unfolding st1 by (rule undo)
  qed
qed

theorem UndoTracker_stacks_shared_witness:
  "plain_instance (snd (UndoTracker_new (snd (UndoTracker_new (UndoTracker_class_body :: nat py_store))))) 0 \<and>
   plain_instance (snd (UndoTracker_new (snd (UndoTracker_new (UndoTracker_class_body :: nat py_store))))) 1 \<and>
   class_attributes (snd (UndoTracker_new (snd (UndoTracker_new (UndoTracker_class_body :: nat py_store))))) \<and>
   (\<exists>st1 st2.
      UndoTracker_add_action
        (snd (UndoTracker_new (snd (UndoTracker_new (UndoTracker_class_body :: nat py_store))))) 0 7 = Inr st1 \<and>
      store_stack st1 0 = Inr \<lparr>stack_capacity = 10000, stack_items = [7]\<rparr> \<and>
      store_stack st1 1 = Inr \<lparr>stack_capacity = 10000, stack_items = []\<rparr> \<and>
      UndoTracker_undo (\<lambda>a g. g - int a) st1 1 (10 :: int) = Inr (Some 7, 3, st2) \<and>
      store_stack st2 0 = Inr \<lparr>stack_capacity = 10000, stack_items = []\<rparr> \<and>
      store_stack st2 1 = Inr \<lparr>stack_capacity = 10000, stack_items = [7]\<rparr>)"
proof -
  let ?st = "snd (UndoTracker_new (snd (UndoTracker_new (UndoTracker_class_body :: nat py_store))))"
  have cls: "class_attributes ?st"
    by (intro new_keeps_class_attributes class_body_attributes)
  have t1: "plain_instance ?st 0"
    by (simp add: plain_instance_def UndoTracker_new_def UndoTracker_class_body_def)
  have t2: "plain_instance ?st 1"
    by (simp add: plain_instance_def UndoTracker_new_def UndoTracker_class_body_def)
  have "\<exists>st1. UndoTracker_add_action ?st 0 7 = Inr st1"
    by (simp add: UndoTracker_add_action_def getattr_def bind_err_def store_stack_def
        store_push_def stack_push_def stack_is_full_def stack_is_empty_def stack_len_def
        UndoTracker_new_def UndoTracker_class_body_def ArrayStack_init_def)
  then obtain st1 where added: "UndoTracker_add_action ?st 0 7 = Inr st1"
    by blast
  have attr_h: "getattr ?st 0 ''history_stack'' = Inr 0"
    and attr_u: "getattr ?st 0 ''undo_stack'' = Inr 1"
    by (simp_all add: getattr_def UndoTracker_new_def UndoTracker_class_body_def)
  have stack_h: "store_stack ?st 0 = Inr \<lparr>stack_capacity = 10000, stack_items = []\<rparr>"
    and stack_u: "store_stack ?st 1 = Inr \<lparr>stack_capacity = 10000, stack_items = []\<rparr>"
    by (simp_all add: store_stack_def UndoTracker_new_def UndoTracker_class_body_def
        ArrayStack_init_def)
  obtain h u hs us where
    h: "getattr ?st 0 ''history_stack'' = Inr h" and u: "getattr ?st 0 ''undo_stack'' = Inr u" and
    hs: "store_stack ?st h = Inr hs" and us: "store_stack ?st u = Inr us" and
    st1: "st1 = ?st\<lparr>objects := (objects ?st)
             (u \<mapsto> us\<lparr>stack_items := []\<rparr>, h \<mapsto> hs\<lparr>stack_items := 7 # stack_items hs\<rparr>)\<rparr>" and
    undo: "UndoTracker_undo (\<lambda>a g. g - int a) st1 1 (10 :: int) =
       Inr (Some 7, 10 - int 7,
            ?st\<lparr>objects := (objects ?st)(u \<mapsto> us\<lparr>stack_items := [7]\<rparr>, h \<mapsto> hs)\<rparr>)"
    using UndoTracker_stacks_shared [OF t1 t2 cls added, of "\<lambda>a g. g - int a" 10] by blast
  have h0: "h = 0" and u1: "u = 1"
    using h u attr_h attr_u by simp_all
  have hs0: "hs = \<lparr>stack_capacity = 10000, stack_items = []\<rparr>"
    using hs stack_h unfolding h0 by simp
  have us0: "us = \<lparr>stack_capacity = 10000, stack_items = []\<rparr>"
    using us stack_u unfolding u1 by simp
  let ?st2 = "?st\<lparr>objects := (objects ?st)(u \<mapsto> us\<lparr>stack_items := [7]\<rparr>, h \<mapsto> hs)\<rparr>"
  have undo3: "UndoTracker_undo (\<lambda>a g. g - int a) st1 1 (10 :: int) = Inr (Some 7, 3, ?st2)"
    using undo by simp
  have s1h: "store_stack st1 0 = Inr \<lparr>stack_capacity = 10000, stack_items = [7]\<rparr>"
    unfolding st1 h0 u1 hs0 us0 by (simp add: store_stack_def)
  have s1u: "store_stack st1 1 = Inr \<lparr>stack_capacity = 10000, stack_items = []\<rparr>"
    unfolding st1 h0 u1 hs0 us0 by (simp add: store_stack_def)
  have s2h: "store_stack ?st2 0 = Inr \<lparr>stack_capacity = 10000, stack_items = []\<rparr>"
    unfolding h0 u1 hs0 us0 by (simp add: store_stack_def)
  have s2u: "store_stack ?st2 1 = Inr \<lparr>stack_capacity = 10000, stack_items = [7]\<rparr>"
    unfolding h0 u1 hs0 us0 by (simp add: store_stack_def)
  show ?thesis
    using t1 t2 cls added s1h s1u undo3 s2h s2u by blast
qed

end
